theory Spec2Isabelle
  imports Complex_Main "HOL-Library.AList" "HOL-Library.Char_ord" "HOL-Library.List_Lexorder"
begin

section \<open>The peer manager of core-api-p2p (lib/down.js)\<close>

text \<open>
  The class \<^verbatim>\<open>Down\<close> keeps the object \<^verbatim>\<open>this.peers\<close>, keyed by the peer's ip, and
  reads and writes it from every method. The embedding passes that object explicitly: a
  method takes the registry and returns the new one. Whatever the class gets from outside
  (the clock, \<^verbatim>\<open>Math.random\<close>, the answers of the remote peers, the environment variable
  \<^verbatim>\<open>ARK_ENV\<close>) is a field of the record \<open>env\<close>, indexed by a tick that counts the
  interactions so far, so that the same peer may answer one probe and miss the next.
\<close>

subsection \<open>Peers and the registry\<close>

text \<open>
  Modelled from the spec: the class \<^verbatim>\<open>Peer\<close> (\<^verbatim>\<open>./peer\<close>) is not among the sources. A peer
  is the record of the fields that down.js reads: \<^verbatim>\<open>ip\<close>, \<^verbatim>\<open>port\<close>, \<^verbatim>\<open>ban\<close> (a time
  stamp, compared with the clock), \<^verbatim>\<open>delay\<close> (the observed latency), \<^verbatim>\<open>downloadSize\<close>
  and \<^verbatim>\<open>state\<close> with \<^verbatim>\<open>height\<close>, \<^verbatim>\<open>currentSlot\<close> and \<^verbatim>\<open>forgingAllowed\<close>. A field
  that JavaScript may find \<^verbatim>\<open>undefined\<close> is an option. Heights, slots, ports and time
  stamps are natural numbers. Of \<^verbatim>\<open>forgingAllowed\<close> the code reads the truth value only.
\<close>

record peer_state =
  height :: "nat option"
  currentSlot :: "nat option"
  forgingAllowed :: bool

record peer =
  ip :: string
  port :: nat
  ban :: nat
  delay :: "nat option"
  downloadSize :: "nat option"
  state :: peer_state

text \<open>
  \<^verbatim>\<open>this.peers\<close> is an object used as a dictionary. \<^verbatim>\<open>Object.keys\<close> and
  \<^verbatim>\<open>Object.values\<close> list its string keys in insertion order, an assignment to a key that
  is present keeps the key's place, and \<^verbatim>\<open>delete\<close> removes the key: an association list
  with \<^const>\<open>AList.update\<close>, \<^const>\<open>AList.delete\<close> and \<^const>\<open>map_of\<close>. (Keys that are
  canonical array indices, which JavaScript lists first, are not ip addresses.)
\<close>

type_synonym registry = "(string \<times> peer) list"

definition keys :: "registry \<Rightarrow> string list" where
  "keys peers = map fst peers"

definition values_of :: "registry \<Rightarrow> peer list" where
  "values_of peers = map snd peers"

text \<open>
  \<^verbatim>\<open>this.peers\<close> starts as the literal \<^verbatim>\<open>{}\<close>, so behind its own keys stand the
  properties that every object inherits from \<^verbatim>\<open>Object.prototype\<close>. A read
  \<^verbatim>\<open>this.peers[k]\<close> finds the peer stored under \<open>k\<close>, or else, for one of the inherited
  names, a function (for '__proto__' the prototype itself), which is truthy and is no
  peer, or else \<^verbatim>\<open>undefined\<close>. A read under a key that \<^verbatim>\<open>Object.keys\<close> listed, or
  under 'undefined', can only find an own key: there the model reads with
  \<^const>\<open>map_of\<close>.
\<close>

datatype lookup = Own peer | Inherited | Missing

definition object_prototype :: "string list" where
  "object_prototype =
     [''constructor'', ''__defineGetter__'', ''__defineSetter__'', ''hasOwnProperty'',
      ''__lookupGetter__'', ''__lookupSetter__'', ''isPrototypeOf'', ''propertyIsEnumerable'',
      ''toString'', ''valueOf'', ''__proto__'', ''toLocaleString'']"

definition js_get :: "registry \<Rightarrow> string \<Rightarrow> lookup" where
  "js_get peers k =
     (case map_of peers k of
        Some p \<Rightarrow> Own p
      | None \<Rightarrow> if k \<in> set object_prototype then Inherited else Missing)"

text \<open>
  An assignment \<^verbatim>\<open>this.peers[k] = peer\<close> adds or replaces the key \<open>k\<close>; under the key
  '__proto__' it adds no key (it would make the peer the prototype of the registry). The
  model stores nothing in that case, and keeps \<^verbatim>\<open>Object.prototype\<close> behind the registry
  throughout.
\<close>

definition js_set :: "registry \<Rightarrow> string \<Rightarrow> peer \<Rightarrow> registry" where
  "js_set peers k v = (if k = ''__proto__'' then peers else AList.update k v peers)"

text \<open>
  Modelled from the spec: a successful probe (\<^verbatim>\<open>peer.ping\<close>, in the missing class)
  "returns the peer's current reported state (height, slot, forging-allowed, capacity) and
  observed latency", and the "state fields [are] updated by Probe on success".
\<close>

record reply =
  reply_state :: peer_state
  reply_delay :: nat
  reply_downloadSize :: "nat option"

definition probed :: "peer \<Rightarrow> reply \<Rightarrow> peer" where
  "probed p r = p\<lparr>state := reply_state r, delay := Some (reply_delay r),
                  downloadSize := reply_downloadSize r\<rparr>"

subsection \<open>Configuration, errors and the outside world\<close>

record seed =
  seed_ip :: string
  seed_port :: nat

text \<open>
  \<^verbatim>\<open>config.peers.list\<close> is \<open>None\<close> when the configuration has no such entry
  (\<^verbatim>\<open>undefined\<close>), and \<open>Some l\<close> when it is the array \<open>l\<close>.
\<close>

record config =
  peers_list :: "seed list option"
  server_port :: nat
  network_nethash :: string

record advert =
  adv_ip :: string
  adv_port :: nat
  adv_status :: string

record candidate =
  cand_ip :: string
  cand_port :: nat
  cand_nethash :: string

datatype block = Block nat

datatype error =
    NoSeedPeers         \<comment> \<open>'No seed peers defined in config/peers.json'\<close>
  | WrongNetwork        \<comment> \<open>'Request is made on the wrong network'\<close>
  | LocalhostRejected   \<comment> \<open>'Localhost peer not accepted'\<close>
  | RangeError          \<comment> \<open>'Maximum call stack size exceeded'\<close>
  | PeerFailure string  \<comment> \<open>a rejection that comes from a call to a remote peer\<close>

record env =
  clock :: "nat \<Rightarrow> nat"
    \<comment> \<open>\<^verbatim>\<open>new Date().getTime()\<close>\<close>
  mathRandom :: "nat \<Rightarrow> real"
    \<comment> \<open>\<^verbatim>\<open>Math.random()\<close>, a number in [0, 1)\<close>
  getSlotNumber :: "nat \<Rightarrow> nat"
    \<comment> \<open>\<^verbatim>\<open>slots.getSlotNumber()\<close>\<close>
  testnet :: bool
    \<comment> \<open>\<^verbatim>\<open>process.env.ARK_ENV === 'testnet'\<close>\<close>
  isLocalhost :: "string \<Rightarrow> bool"
    \<comment> \<open>\<^verbatim>\<open>./utils/is-localhost\<close>, not among the sources\<close>
  blank :: "nat \<Rightarrow> peer"
    \<comment> \<open>the fields a new \<^verbatim>\<open>Peer\<close> starts with, beside its ip and port\<close>
  ping :: "nat \<Rightarrow> peer \<Rightarrow> nat option \<Rightarrow> reply option"
    \<comment> \<open>\<^verbatim>\<open>peer.ping(timeout)\<close>: the reply, or \<open>None\<close> when the promise rejects\<close>
  getPeers :: "nat \<Rightarrow> peer \<Rightarrow> advert list option"
    \<comment> \<open>\<^verbatim>\<open>peer.getPeers()\<close>\<close>
  postBlock :: "nat \<Rightarrow> peer \<Rightarrow> block \<Rightarrow> error + unit"
    \<comment> \<open>\<^verbatim>\<open>peer.postBlock(block)\<close>: the acknowledgement, or the rejection\<close>
  peerDownloadBlocks :: "nat \<Rightarrow> peer \<Rightarrow> nat \<Rightarrow> error + block list"
    \<comment> \<open>\<^verbatim>\<open>peer.downloadBlocks(fromBlockHeight)\<close>\<close>

definition new_Peer :: "env \<Rightarrow> nat \<Rightarrow> string \<Rightarrow> nat \<Rightarrow> peer" where
  "new_Peer e t a p = (blank e t)\<lparr>ip := a, port := p\<rparr>"

subsection \<open>The constructor\<close>

text \<open>
  \<^verbatim>\<open>if (!config.peers.list) throw new Error('No seed peers ...')\<close>: an array is truthy in
  JavaScript, the empty one too, so the test fails only when there is no list. The seeds
  other than 127.0.0.1 at the node's own port are then stored one by one.
\<close>

definition store_seed :: "env \<Rightarrow> nat \<Rightarrow> registry \<Rightarrow> seed \<Rightarrow> registry" where
  "store_seed e t peers s =
     js_set peers (seed_ip s) (new_Peer e t (seed_ip s) (seed_port s))"

fun constructor :: "env \<Rightarrow> nat \<Rightarrow> config \<Rightarrow> error + registry" where
  "constructor e t c =
     (case peers_list c of
        None \<Rightarrow> Inl NoSeedPeers
      | Some l \<Rightarrow>
          Inr (foldl (store_seed e t) []
                 (filter (\<lambda>s. seed_ip s \<noteq> ''127.0.0.1'' \<or> seed_port s \<noteq> server_port c) l)))"

subsection \<open>Consensus metrics\<close>

text \<open>
  \<^verbatim>\<open>Array.prototype.sort\<close> without a comparator orders the elements by their string
  conversions, compared code unit by code unit; it is stable. For a natural number the
  conversion is its decimal numeral, and the order of strings is the lexicographic one of
  \<^verbatim>\<open>HOL-Library.List_Lexorder\<close> over the character codes.
\<close>

definition digit_char :: "nat \<Rightarrow> char" where
  "digit_char d = ''0123456789'' ! d"

function toString :: "nat \<Rightarrow> string" where
  "toString n =
     (if n < 10 then [digit_char n] else toString (n div 10) @ [digit_char (n mod 10)])"
  by pat_completeness auto
termination
  by (relation "measure id") auto

declare toString.simps [simp del]

definition js_sort :: "nat list \<Rightarrow> nat list" where
  "js_sort xs = sort_key toString xs"

text \<open>\<^verbatim>\<open>xs[i]\<close> is \<^verbatim>\<open>undefined\<close> when \<open>i\<close> is out of range.\<close>

definition at_index :: "'a list \<Rightarrow> nat \<Rightarrow> 'a option" where
  "at_index xs i = (if i < length xs then Some (xs ! i) else None)"

text \<open>\<^verbatim>\<open>.filter(peer => peer.state.height)\<close> keeps the heights that are truthy.\<close>

fun truthy :: "nat option \<Rightarrow> bool" where
  "truthy None = False"
| "truthy (Some n) = (n \<noteq> 0)"

definition getNetworkHeight :: "registry \<Rightarrow> nat option" where
  "getNetworkHeight peers =
     (let median = js_sort (map (\<lambda>p. the (height (state p)))
                              (filter (\<lambda>p. truthy (height (state p))) (values_of peers)))
      in at_index median (length median div 2))"

text \<open>
  The specification's \<open>networkHeight\<close>, in its own words: the known (non-zero) heights
  sorted numerically ascending, and the element at index \<open>floor(count/2)\<close>.
\<close>

definition networkHeight_spec :: "registry \<Rightarrow> nat option" where
  "networkHeight_spec peers =
     (let hs = sort (map (\<lambda>p. the (height (state p)))
                       (filter (\<lambda>p. truthy (height (state p))) (values_of peers)))
      in at_index hs (length hs div 2))"

text \<open>
  A JavaScript number as far as the forging status needs it: the quotient of two counts
  is \<^verbatim>\<open>NaN\<close> for 0/0, \<^verbatim>\<open>Infinity\<close> for n/0, and the ratio otherwise.
\<close>

datatype number = NaN | PosInfinity | Num real

definition js_div :: "nat \<Rightarrow> nat \<Rightarrow> number" where
  "js_div a b = (if b = 0 then (if a = 0 then NaN else PosInfinity) else Num (real a / real b))"

text \<open>
  \<^verbatim>\<open>peer.state.height >= height\<close>: a comparison with \<^verbatim>\<open>undefined\<close> on either side is
  false.
\<close>

fun js_ge :: "nat option \<Rightarrow> nat option \<Rightarrow> bool" where
  "js_ge (Some a) (Some b) = (b \<le> a)"
| "js_ge _ _ = False"

definition syncedPeers :: "registry \<Rightarrow> nat \<Rightarrow> peer list" where
  "syncedPeers peers slot = filter (\<lambda>p. currentSlot (state p) = Some slot) (values_of peers)"

definition okForging :: "registry \<Rightarrow> nat \<Rightarrow> peer list" where
  "okForging peers slot =
     filter (\<lambda>p. forgingAllowed (state p) \<and> js_ge (height (state p)) (getNetworkHeight peers))
       (syncedPeers peers slot)"

definition getPBFTForgingStatus :: "env \<Rightarrow> nat \<Rightarrow> registry \<Rightarrow> number" where
  "getPBFTForgingStatus e t peers =
     js_div (length (okForging peers (getSlotNumber e t)))
            (length (syncedPeers peers (getSlotNumber e t)))"

subsection \<open>Peer selection\<close>

text \<open>
  \<^verbatim>\<open>keys.filter((key) => this.peers[key].ban < new Date().getTime())\<close> and
  \<^verbatim>\<open>keys.filter((key) => this.peers[key].delay < acceptableDelay)\<close>. The keys come from
  the registry itself, so the lookups succeed; one synchronous pass reads one clock value.
  A comparison with an \<^verbatim>\<open>undefined\<close> delay is false.
\<close>

definition notBanned :: "env \<Rightarrow> nat \<Rightarrow> registry \<Rightarrow> string \<Rightarrow> bool" where
  "notBanned e t peers key =
     (case map_of peers key of Some p \<Rightarrow> ban p < clock e t | None \<Rightarrow> False)"

definition withinDelay :: "registry \<Rightarrow> nat \<Rightarrow> string \<Rightarrow> bool" where
  "withinDelay peers d key =
     (case map_of peers key of
        Some p \<Rightarrow> (case delay p of Some x \<Rightarrow> x < d | None \<Rightarrow> False)
      | None \<Rightarrow> False)"

definition notFull :: "registry \<Rightarrow> string \<Rightarrow> bool" where
  "notFull peers key =
     (case map_of peers key of Some p \<Rightarrow> downloadSize p \<noteq> Some 100 | None \<Rightarrow> False)"

text \<open>
  \<^verbatim>\<open>keys[keys.length * Math.random() << 0]\<close>: the product is truncated to an integer, and
  an index out of range reads \<^verbatim>\<open>undefined\<close>, which as a property key is the string
  'undefined'.
\<close>

definition random_index :: "env \<Rightarrow> nat \<Rightarrow> nat \<Rightarrow> nat" where
  "random_index e t n = nat \<lfloor>real n * mathRandom e t\<rfloor>"

definition property_key :: "string option \<Rightarrow> string" where
  "property_key k = (case k of Some s \<Rightarrow> s | None \<Rightarrow> ''undefined'')"

definition random_key :: "env \<Rightarrow> nat \<Rightarrow> string list \<Rightarrow> string" where
  "random_key e t ks = property_key (at_index ks (random_index e t (length ks)))"

text \<open>
  \<^verbatim>\<open>getRandomPeer(acceptableDelay)\<close> calls itself, without an argument, when the chosen
  key has no peer. The calls are synchronous, each on top of the one before, and nothing
  in the method bounds them: they end when a call finds a peer, or when the call stack is
  exhausted and the engine throws a \<^verbatim>\<open>RangeError\<close>. The first argument of the model is
  the number of nested calls for which the stack has room when the method is called. The
  result is the error thrown, or the key under which the returned peer object is stored
  and the peer; with it come the tick and the registry after the call.
  \<^verbatim>\<open>this.p2p.checkOnline()\<close> belongs to a collaborator that is not among the sources; it is
  taken to leave the registry alone.
\<close>

type_synonym 'a outcome = "(error + 'a) \<times> nat \<times> registry"

fun getRandomPeer ::
  "nat \<Rightarrow> env \<Rightarrow> nat \<Rightarrow> registry \<Rightarrow> nat option \<Rightarrow> (string \<times> peer) outcome" where
  "getRandomPeer 0 e t peers acceptableDelay = (Inl RangeError, t, peers)"
| "getRandomPeer (Suc stack) e t peers acceptableDelay =
     (let ks = filter (notBanned e t peers) (keys peers);
          ks' = (if truthy acceptableDelay
                 then filter (withinDelay peers (the acceptableDelay)) ks else ks);
          random = random_key e t ks'
      in case map_of peers random of
           None \<Rightarrow> getRandomPeer stack e (Suc t) (AList.delete random peers) None
         | Some randomPeer \<Rightarrow> (Inr (random, randomPeer), Suc t, peers))"

text \<open>
  \<^verbatim>\<open>getRandomDownloadBlocksPeer()\<close> falls back on \<^verbatim>\<open>getRandomPeer()\<close>, one call deeper.
\<close>

fun getRandomDownloadBlocksPeer ::
  "nat \<Rightarrow> env \<Rightarrow> nat \<Rightarrow> registry \<Rightarrow> (string \<times> peer) outcome" where
  "getRandomDownloadBlocksPeer 0 e t peers = (Inl RangeError, t, peers)"
| "getRandomDownloadBlocksPeer (Suc stack) e t peers =
     (let ks = filter (notBanned e t peers) (keys peers);
          ks' = filter (notFull peers) ks;
          random = random_key e t ks'
      in case map_of peers random of
           None \<Rightarrow> getRandomPeer stack e (Suc t) (AList.delete random peers) None
         | Some randomPeer \<Rightarrow> (Inr (random, randomPeer), Suc t, peers))"

declare getRandomDownloadBlocksPeer.simps [simp del]

subsection \<open>The cleanup sweep\<close>

text \<open>
  \<^verbatim>\<open>cleanPeers(fast)\<close> probes every key of the registry; the callback of a key counts a
  reply, and on a rejection counts a wrong peer and deletes the key. All probes start in
  the same synchronous pass, hence at the same tick. The callbacks touch disjoint keys;
  the model runs them in the order of the keys, and no other method of the class in
  between. What the method logs is its report.
\<close>

definition probe_timeout :: "bool \<Rightarrow> nat" where
  "probe_timeout fast = (if fast then 1000 else 5000)"

definition cleanPeer ::
  "env \<Rightarrow> nat \<Rightarrow> bool \<Rightarrow> registry \<times> nat \<times> nat \<Rightarrow> string \<Rightarrow> registry \<times> nat \<times> nat" where
  "cleanPeer e t fast acc key =
     (case acc of (peers, count, wrongpeers) \<Rightarrow>
        (case map_of peers key of
           None \<Rightarrow> (AList.delete key peers, count, Suc wrongpeers)
         | Some p \<Rightarrow>
             (case ping e t p (Some (probe_timeout fast)) of
                Some r \<Rightarrow> (AList.update key (probed p r) peers, Suc count, wrongpeers)
              | None \<Rightarrow> (AList.delete key peers, count, Suc wrongpeers))))"

record report =
  checked :: nat
  responsive :: int
  medianHeight :: "nat option"
  pbftStatus :: number

definition cleanPeers :: "env \<Rightarrow> nat \<Rightarrow> bool \<Rightarrow> registry \<Rightarrow> report \<times> nat \<times> registry" where
  "cleanPeers e t fast peers =
     (case foldl (cleanPeer e t fast) (peers, 0, 0) (keys peers) of
        (peers', count, wrongpeers) \<Rightarrow>
          (\<lparr>checked = length (keys peers),
            responsive = int (length (keys peers)) - int wrongpeers,
            medianHeight = getNetworkHeight peers',
            pbftStatus = getPBFTForgingStatus e (Suc t) peers'\<rparr>,
           Suc t, peers'))"

subsection \<open>Peer acceptance\<close>

definition loopback_literal :: "string \<Rightarrow> bool" where
  "loopback_literal a = (a = ''::ffff:127.0.0.1'' \<or> a = ''127.0.0.1'')"

text \<open>
  \<^verbatim>\<open>acceptNewPeer(peer)\<close>: the result is the error thrown, if any, with the tick and the
  registry after the call. A candidate that does not answer the probe is logged and
  dropped.
\<close>

fun acceptNewPeer ::
  "env \<Rightarrow> config \<Rightarrow> nat \<Rightarrow> registry \<Rightarrow> candidate \<Rightarrow> (error + unit) \<times> nat \<times> registry" where
  "acceptNewPeer e c t peers cand =
     (if js_get peers (cand_ip cand) \<noteq> Missing \<or> testnet e then (Inr (), t, peers)
      else if cand_nethash cand \<noteq> network_nethash c then (Inl WrongNetwork, t, peers)
      else if loopback_literal (cand_ip cand) then (Inl LocalhostRejected, t, peers)
      else (case ping e t (new_Peer e t (cand_ip cand) (cand_port cand)) None of
              Some r \<Rightarrow>
                (Inr (), Suc t,
                 js_set peers (cand_ip cand)
                   (probed (new_Peer e t (cand_ip cand) (cand_port cand)) r))
            | None \<Rightarrow> (Inr (), Suc t, peers)))"

subsection \<open>Discovery and the network status\<close>

fun admit :: "env \<Rightarrow> nat \<Rightarrow> registry \<Rightarrow> advert \<Rightarrow> registry" where
  "admit e t peers a =
     (if adv_status a = ''OK'' \<and> js_get peers (adv_ip a) = Missing \<and> \<not> isLocalhost e (adv_ip a)
      then js_set peers (adv_ip a) (new_Peer e t (adv_ip a) (adv_port a))
      else peers)"

text \<open>
  An asynchronous method runs up to its first \<^verbatim>\<open>await\<close> on the stack of its caller, and
  goes on after an \<^verbatim>\<open>await\<close> in a turn of the event loop of its own, on a stack that is
  empty again. It may go on for ever from turn to turn. The models of these methods take
  \<open>fuel\<close>, the number of attempts they may make, and give \<open>None\<close> when the attempts did
  not suffice; and \<open>stack\<close>, the room for nested calls that a new turn finds.

  \<^verbatim>\<open>discoverPeers()\<close> calls itself from its \<^verbatim>\<open>catch\<close>. When \<^verbatim>\<open>getRandomPeer()\<close>
  throws, no \<^verbatim>\<open>await\<close> has been reached: the new call stands on top of the present one,
  with the room \<open>room\<close> one less, and a call for which there is no room left fails in
  its turn. When the chosen peer does not give its list, the rejection arrives after the
  \<^verbatim>\<open>await\<close>, and the new call finds the stack of a new turn.
\<close>

fun discoverPeers ::
  "nat \<Rightarrow> nat \<Rightarrow> nat \<Rightarrow> env \<Rightarrow> nat \<Rightarrow> registry \<Rightarrow> unit outcome option" where
  "discoverPeers fuel stack 0 e t peers = Some (Inl RangeError, t, peers)"
| "discoverPeers 0 stack (Suc room) e t peers = None"
| "discoverPeers (Suc fuel) stack (Suc room) e t peers =
     (case getRandomPeer room e t peers None of
        (Inl err, t1, peers1) \<Rightarrow> discoverPeers (Suc fuel) stack room e t1 peers1
      | (Inr (key, p), t1, peers1) \<Rightarrow>
          (case getPeers e t1 p of
             None \<Rightarrow> discoverPeers fuel stack stack e (Suc t1) peers1
           | Some lst \<Rightarrow> Some (Inr (), Suc t1, foldl (admit e (Suc t1)) peers1 lst)))"

text \<open>
  The re-seeding of \<^verbatim>\<open>updateNetworkStatus\<close>:
  \<^verbatim>\<open>this.config.peers.list.forEach(peer => (this.peers[peer.ip] = new Peer(...)))\<close>.
\<close>

definition reseed :: "env \<Rightarrow> nat \<Rightarrow> seed list \<Rightarrow> registry \<Rightarrow> registry" where
  "reseed e t seeds peers = foldl (store_seed e t) peers seeds"

text \<open>
  \<^verbatim>\<open>updateNetworkStatus()\<close>, for a manager whose constructor found the seed list
  \<open>seeds\<close>. An error of the discovery reaches the \<^verbatim>\<open>catch\<close>, which stores the seeds
  again and calls the method again; the sweep catches every failed probe itself. Both
  self-calls come after an \<^verbatim>\<open>await\<close>. With \<^verbatim>\<open>ARK_ENV\<close> set to testnet both tests
  of the method fail and it returns at once.
\<close>

fun updateNetworkStatus ::
  "nat \<Rightarrow> nat \<Rightarrow> env \<Rightarrow> seed list \<Rightarrow> nat \<Rightarrow> registry \<Rightarrow> (nat \<times> registry) option" where
  "updateNetworkStatus 0 stack e seeds t peers = None"
| "updateNetworkStatus (Suc fuel) stack e seeds t peers =
     (if testnet e then Some (t, peers)
      else (case discoverPeers fuel stack stack e t peers of
              None \<Rightarrow> None
            | Some (Inl err, t1, peers1) \<Rightarrow>
                updateNetworkStatus fuel stack e seeds t1 (reseed e t1 seeds peers1)
            | Some (Inr u, t1, peers1) \<Rightarrow>
                (case cleanPeers e t1 False peers1 of
                   (rep, t2, peers2) \<Rightarrow>
                     if int (length (keys peers2)) < int (length seeds) - 1
                     then updateNetworkStatus fuel stack e seeds t2 (reseed e t2 seeds peers2)
                     else Some (t2, peers2))))"

fun start ::
  "nat \<Rightarrow> nat \<Rightarrow> env \<Rightarrow> seed list \<Rightarrow> bool \<Rightarrow> nat \<Rightarrow> registry \<Rightarrow> (nat \<times> registry) option" where
  "start fuel stack e seeds networkStart t peers =
     (if networkStart then Some (t, peers) else updateNetworkStatus fuel stack e seeds t peers)"

subsection \<open>Block download and broadcast\<close>


text \<open>
  \<^verbatim>\<open>Promise.all\<close> fulfils with all the values when every promise fulfils, and rejects
  with the reason of a rejected one otherwise. The model has no order in time among the
  sends; it takes the first rejection in the order of the list. The serialisation
  \<^verbatim>\<open>block.toBroadcastV1()\<close> is not among the sources: the peers are handed the block.
\<close>

fun promise_all :: "('e + 'a) list \<Rightarrow> 'e + 'a list" where
  "promise_all [] = Inr []"
| "promise_all (Inl err # rs) = Inl err"
| "promise_all (Inr a # rs) =
     (case promise_all rs of Inl err \<Rightarrow> Inl err | Inr as \<Rightarrow> Inr (a # as))"

definition broadcastBlock :: "env \<Rightarrow> nat \<Rightarrow> registry \<Rightarrow> block \<Rightarrow> error + unit list" where
  "broadcastBlock e t peers b = promise_all (map (\<lambda>p. postBlock e t p b) (values_of peers))"

text \<open>
  What a sweep leaves of a registry: the entries whose probe is answered, each with the
  reply stored in it. (\<open>cleanPeers\<close> is shown below to compute this.)
\<close>

definition survivors :: "env \<Rightarrow> nat \<Rightarrow> bool \<Rightarrow> registry \<Rightarrow> registry" where
  "survivors e t fast peers =
     List.map_filter
       (\<lambda>(k, p). map_option (\<lambda>r. (k, probed p r)) (ping e t p (Some (probe_timeout fast)))) peers"

subsection \<open>Operations in flight, and stop\<close>

text \<open>
  Between the call of a peer and the moment its promise settles, an operation is in
  flight: the reaction that the method has put behind its \<^verbatim>\<open>await\<close> waits in the event
  loop. The manager with its operations in flight:
  \<^item> \<open>Probing i key timeout\<close>: sweep number \<open>i\<close> (a call of \<^verbatim>\<open>cleanPeers\<close>) awaits the
    probe of the peer under \<open>key\<close>; its reaction counts a reply in \<^verbatim>\<open>count\<close>, and on a
    rejection counts \<^verbatim>\<open>wrongpeers\<close> and deletes the key;
  \<^item> \<open>Connecting p\<close>: \<^verbatim>\<open>acceptNewPeer\<close> awaits the probe of the new peer \<open>p\<close>; its
    reaction stores the peer under its ip when the probe is answered;
  \<^item> \<open>Posting p b\<close>: \<^verbatim>\<open>broadcastBlock\<close> awaits the send of the block \<open>b\<close> to \<open>p\<close>; the
    method has no reaction of its own to it.

  \<open>tallies\<close> holds, for every sweep, its variables \<^verbatim>\<open>count\<close> and \<^verbatim>\<open>wrongpeers\<close>.
\<close>

datatype operation =
    Probing nat string nat
  | Connecting peer
  | Posting peer block

record manager =
  this_peers :: registry
  in_flight :: "operation list"
  tallies :: "(nat \<times> nat) list"

text \<open>\<^verbatim>\<open>stop () { /* Noop */ }\<close>: the method has an empty body.\<close>

definition stop :: "manager \<Rightarrow> manager" where
  "stop m = m"

text \<open>
  The reactions. A reply to a probe is stored in the peer object that was probed, which
  is the entry under its key as long as the key is there. (Were the key stored anew while
  the probe is in flight, it would hold another object; the model stores the reply in
  the entry under the key all the same.)
\<close>

definition probe_answered :: "nat \<Rightarrow> string \<Rightarrow> reply \<Rightarrow> manager \<Rightarrow> manager" where
  "probe_answered i key r m =
     m\<lparr>this_peers :=
         (case map_of (this_peers m) key of
            Some p \<Rightarrow> AList.update key (probed p r) (this_peers m)
          | None \<Rightarrow> this_peers m),
       tallies := (tallies m)[i := (Suc (fst (tallies m ! i)), snd (tallies m ! i))]\<rparr>"

definition probe_failed :: "nat \<Rightarrow> string \<Rightarrow> manager \<Rightarrow> manager" where
  "probe_failed i key m =
     m\<lparr>this_peers := AList.delete key (this_peers m),
       tallies := (tallies m)[i := (fst (tallies m ! i), Suc (snd (tallies m ! i)))]\<rparr>"

definition without :: "nat \<Rightarrow> 'a list \<Rightarrow> 'a list" where
  "without n xs = take n xs @ drop (Suc n) xs"

text \<open>
  What can happen to the manager: a call of \<^verbatim>\<open>stop\<close>, of \<^verbatim>\<open>cleanPeers\<close> or of
  \<^verbatim>\<open>broadcastBlock\<close>, \<^verbatim>\<open>acceptNewPeer\<close> reaching the probe of a new peer, and the
  settling of the \<open>n\<close>-th operation in flight: of a probe with a reply or none, of a send
  with an acknowledgement or an error.
\<close>

datatype event =
    Stop
  | Sweeps bool
  | Broadcasts block
  | Connects peer
  | Probe_settles nat "reply option"
  | Send_settles nat "error + unit"

fun step :: "manager \<Rightarrow> event \<Rightarrow> manager" where
  "step m Stop = stop m"
| "step m (Sweeps fast) =
     m\<lparr>in_flight :=
         in_flight m @
         map (\<lambda>key. Probing (length (tallies m)) key (probe_timeout fast)) (keys (this_peers m)),
       tallies := tallies m @ [(0, 0)]\<rparr>"
| "step m (Broadcasts b) =
     m\<lparr>in_flight := in_flight m @ map (\<lambda>p. Posting p b) (values_of (this_peers m))\<rparr>"
| "step m (Connects p) = m\<lparr>in_flight := in_flight m @ [Connecting p]\<rparr>"
| "step m (Probe_settles n settled) =
     (case at_index (in_flight m) n of
        Some (Probing i key timeout) \<Rightarrow>
          (case settled of
             Some r \<Rightarrow> probe_answered i key r (m\<lparr>in_flight := without n (in_flight m)\<rparr>)
           | None \<Rightarrow> probe_failed i key (m\<lparr>in_flight := without n (in_flight m)\<rparr>))
      | Some (Connecting p) \<Rightarrow>
          (case settled of
             Some r \<Rightarrow>
               m\<lparr>in_flight := without n (in_flight m),
                 this_peers := js_set (this_peers m) (ip p) (probed p r)\<rparr>
           | None \<Rightarrow> m\<lparr>in_flight := without n (in_flight m)\<rparr>)
      | _ \<Rightarrow> m)"
| "step m (Send_settles n ack) =
     (case at_index (in_flight m) n of
        Some (Posting p b) \<Rightarrow> m\<lparr>in_flight := without n (in_flight m)\<rparr>
      | _ \<Rightarrow> m)"

definition run :: "manager \<Rightarrow> event list \<Rightarrow> manager" where
  "run m evs = foldl step m evs"

text \<open>The manager over a registry when nothing is in flight and no sweep has started.\<close>

definition idle :: "registry \<Rightarrow> manager" where
  "idle peers = \<lparr>this_peers = peers, in_flight = [], tallies = []\<rparr>"

subsection \<open>A small network\<close>

text \<open>
  Concrete peers and a concrete outside world, on which the methods can be run: a peer
  that has not been probed yet, peers with a given ban and latency, peers that report a
  given height in slot 7, and a world in which \<open>up t a\<close> says whether the peer at address
  \<open>a\<close> answers at tick \<open>t\<close>.
\<close>

definition fresh :: peer where
  "fresh = \<lparr>ip = [], port = 0, ban = 0, delay = None, downloadSize = None,
            state = \<lparr>height = None, currentSlot = None, forgingAllowed = False\<rparr>\<rparr>"

definition known :: "string \<Rightarrow> nat \<Rightarrow> nat option \<Rightarrow> string \<times> peer" where
  "known a b d = (a, fresh\<lparr>ip := a, port := 4001, ban := b, delay := d\<rparr>)"

definition reporting :: "string \<Rightarrow> nat \<Rightarrow> bool \<Rightarrow> string \<times> peer" where
  "reporting a h f =
     (a, fresh\<lparr>ip := a, port := 4001,
               state := \<lparr>height = Some h, currentSlot = Some 7, forgingAllowed = f\<rparr>\<rparr>)"

definition answer :: reply where
  "answer = \<lparr>reply_state = \<lparr>height = Some 5, currentSlot = Some 7, forgingAllowed = True\<rparr>,
             reply_delay = 20, reply_downloadSize = None\<rparr>"

definition world :: "(nat \<Rightarrow> string \<Rightarrow> bool) \<Rightarrow> env" where
  "world up =
     \<lparr>clock = (\<lambda>t. 1000 + t), mathRandom = (\<lambda>t. 0), getSlotNumber = (\<lambda>t. 7),
      testnet = False, isLocalhost = loopback_literal, blank = (\<lambda>t. fresh),
      ping = (\<lambda>t p timeout. if up t (ip p) then Some answer else None),
      getPeers = (\<lambda>t p. if up t (ip p) then Some [] else None),
      postBlock = (\<lambda>t p b. if up t (ip p) then Inr () else Inl (PeerFailure (ip p))),
      peerDownloadBlocks =
        (\<lambda>t p h. if up t (ip p) then Inr [Block h] else Inl (PeerFailure (ip p)))\<rparr>"

definition node :: "string \<Rightarrow> seed" where
  "node a = \<lparr>seed_ip = a, seed_port = 4000\<rparr>"

text \<open>
  The entry that the constructor or a re-seeding stores for the seed at address \<open>a\<close> and
  port 4000 in that world, and the entry after the peer has answered a probe.
\<close>

definition seeded :: "string \<Rightarrow> string \<times> peer" where
  "seeded a = (a, fresh\<lparr>ip := a, port := 4000\<rparr>)"

definition answered :: "string \<Rightarrow> string \<times> peer" where
  "answered a = (a, probed (fresh\<lparr>ip := a, port := 4000\<rparr>) answer)"

section \<open>Properties\<close>

subsection \<open>Auxiliary facts\<close>

lemma at_index_in: "at_index xs i = Some x \<Longrightarrow> x \<in> set xs"
  by (auto simp: at_index_def split: if_splits)


lemma absent_delete: "map_of peers k = None \<Longrightarrow> AList.delete k peers = peers"
  by (simp add: map_of_eq_None_iff)




subsection \<open>Peer selection\<close>

text \<open>
  The selection never changes the registry (the key it deletes is one that is absent),
  the peer it returns is stored under the key it returns, and it passes at least one
  tick.
\<close>

lemma getRandomPeer_registry:
  "getRandomPeer stack e t peers D = (res, t', peers') \<Longrightarrow> peers' = peers"
proof (induction stack arbitrary: t D)
  case 0
  then show ?case by simp
next
  case (Suc stack)
  then show ?case
    by (auto simp: Let_def absent_delete split: option.splits)
qed








subsection \<open>The cleanup sweep\<close>

lemma survivors_Nil [simp]: "survivors e t fast [] = []"
  by (simp add: survivors_def map_filter_simps)

lemma survivors_Cons:
  "survivors e t fast ((k, p) # rest) =
     (case ping e t p (Some (probe_timeout fast)) of
        Some r \<Rightarrow> (k, probed p r) # survivors e t fast rest
      | None \<Rightarrow> survivors e t fast rest)"
  by (simp add: survivors_def map_filter_simps split: option.splits)

lemma map_of_middle:
  "k \<notin> fst ` set front \<Longrightarrow> map_of (front @ (k, p) # rest) k = Some p"
  by (induction front) auto

lemma update_middle:
  "k \<notin> fst ` set front \<Longrightarrow> AList.update k v (front @ (k, p) # rest) = front @ (k, v) # rest"
  by (induction front) auto

lemma delete_middle:
  "k \<notin> fst ` set front \<Longrightarrow> k \<notin> fst ` set rest \<Longrightarrow>
     AList.delete k (front @ (k, p) # rest) = front @ rest"
proof -
  assume a: "k \<notin> fst ` set front" and b: "k \<notin> fst ` set rest"
  have "AList.delete k (front @ (k, p) # rest) = AList.delete k front @ AList.delete k rest"
    by (simp add: AList.delete_eq)
  then show ?thesis
    using a b by simp
qed

lemma length_survivors_le: "length (survivors e t fast peers) \<le> length peers"
  by (simp add: survivors_def map_filter_def)

lemma cleanPeer_fold:
  assumes "distinct (map fst (front @ todo))"
  shows "foldl (cleanPeer e t fast) (front @ todo, c, w) (map fst todo) =
           (front @ survivors e t fast todo,
            c + length (survivors e t fast todo),
            w + (length todo - length (survivors e t fast todo)))"
  using assms
proof (induction todo arbitrary: front c w)
  case Nil
  then show ?case by simp
next
  case (Cons kp rest)
  obtain k p where kp: "kp = (k, p)"
    by (cases kp)
  have fresh_k: "k \<notin> fst ` set front" "k \<notin> fst ` set rest"
    using Cons.prems by (auto simp: kp)
  have m: "map_of (front @ (k, p) # rest) k = Some p"
    using fresh_k(1) by (rule map_of_middle)
  note le = length_survivors_le [of e t fast rest]
  show ?case
  proof (cases "ping e t p (Some (probe_timeout fast))")
    case None
    have "AList.delete k (front @ (k, p) # rest) = front @ rest"
      using fresh_k by (rule delete_middle)
    then have step: "cleanPeer e t fast (front @ kp # rest, c, w) k = (front @ rest, c, Suc w)"
      using None m by (simp add: cleanPeer_def kp del: map_of_append)
    have "distinct (map fst (front @ rest))"
      using Cons.prems by (simp add: kp)
    from Cons.IH [OF this, of c "Suc w"] step None le show ?thesis
      by (simp add: kp survivors_Cons Suc_diff_le)
  next
    case (Some r)
    have "AList.update k (probed p r) (front @ (k, p) # rest) = front @ (k, probed p r) # rest"
      using fresh_k(1) by (rule update_middle)
    then have step: "cleanPeer e t fast (front @ kp # rest, c, w) k =
                  ((front @ [(k, probed p r)]) @ rest, Suc c, w)"
      using Some m by (simp add: cleanPeer_def kp del: map_of_append)
    have "distinct (map fst ((front @ [(k, probed p r)]) @ rest))"
      using Cons.prems by (simp add: kp)
    from Cons.IH [OF this, of "Suc c" w] step Some show ?thesis
      by (simp add: kp survivors_Cons)
  qed
qed

lemma keys_survivors:
  "keys (survivors e t fast peers) =
     map fst (filter (\<lambda>(k, p). ping e t p (Some (probe_timeout fast)) \<noteq> None) peers)"
  by (induction peers) (auto simp: survivors_Cons keys_def split: option.splits)

lemma length_survivors:
  "length (survivors e t fast peers) + 
     length (filter (\<lambda>p. ping e t p (Some (probe_timeout fast)) = None) (values_of peers)) = length peers"
  by (induction peers) (auto simp: survivors_Cons values_of_def split: option.splits)

lemma map_of_survivors:
  "distinct (map fst peers) \<Longrightarrow> map_of peers k = Some p \<Longrightarrow>
     map_of (survivors e t fast peers) k = map_option (probed p) (ping e t p (Some (probe_timeout fast)))"
proof (induction peers)
  case Nil
  then show ?case by simp
next
  case (Cons a peers)
  have absent: "k' \<notin> fst ` set peers \<Longrightarrow> map_of (survivors e t fast peers) k' = None" for k'
    using keys_survivors [of e t fast peers]
    by (metis (no_types, lifting) filter_is_subset image_mono keys_def list.set_map map_of_eq_None_iff subsetD)
  show ?case
  proof (cases a)
    case (Pair k' p')
    show ?thesis
    proof (cases "k' = k")
      case True
      then show ?thesis
        using Cons.prems Pair absent [of k]
        by (auto simp: survivors_Cons split: option.splits)
    next
      case False
      then show ?thesis
        using Cons Pair
        by (auto simp: survivors_Cons split: option.splits)
    qed
  qed
qed

lemma cleanPeers_eq:
  assumes "distinct (keys peers)"
  shows "cleanPeers e t fast peers =
     (\<lparr>checked = length peers,
       responsive = int (length peers) - int (length peers - length (survivors e t fast peers)),
       medianHeight = getNetworkHeight (survivors e t fast peers),
       pbftStatus = getPBFTForgingStatus e (Suc t) (survivors e t fast peers)\<rparr>,
      Suc t, survivors e t fast peers)"
  using cleanPeer_fold [of "[]" peers e t fast 0 0] assms
  by (simp add: cleanPeers_def keys_def)

text \<open>
  C7. For a registry of \<open>N\<close> peers (under distinct keys, as the keys of an object are) of
  which \<open>M\<close> fail their probe, the sweep leaves exactly the peers whose probe was
  answered, in their order and each with its reply stored; the registry then has
  \<open>N - M\<close> entries, and the reported responsive count is that number.
\<close>

theorem cleanPeers_sweep:
  assumes "distinct (keys peers)" and "cleanPeers e t fast peers = (rep, t', peers')"
  shows "keys peers' = map fst (filter (\<lambda>(k, p). ping e t p (Some (probe_timeout fast)) \<noteq> None) peers)
    \<and> (\<forall>k p. map_of peers k = Some p \<longrightarrow>
          map_of peers' k = map_option (probed p) (ping e t p (Some (probe_timeout fast))))
    \<and> length peers' + length (filter (\<lambda>p. ping e t p (Some (probe_timeout fast)) = None) (values_of peers))
        = length peers
    \<and> responsive rep = int (length peers')
    \<and> checked rep = length peers"
proof -
  let ?s = "survivors e t fast peers"
  from cleanPeers_eq [OF assms(1), of e t fast] assms(2)
  have p: "peers' = ?s" and r: "responsive rep = int (length peers) - int (length peers - length ?s)"
    and c: "checked rep = length peers"
    by auto
  have "responsive rep = int (length ?s)"
    using r length_survivors_le [of e t fast peers] by simp
  moreover have "\<forall>k p. map_of peers k = Some p \<longrightarrow>
          map_of ?s k = map_option (probed p) (ping e t p (Some (probe_timeout fast)))"
    using assms(1) map_of_survivors by (simp add: keys_def)
  ultimately show ?thesis
    using p c keys_survivors [of e t fast peers] length_survivors [of e t fast peers]
    by simp
qed

theorem cleanPeers_sweep_witness:
  "distinct (keys [known ''10.0.0.1'' 0 None, known ''10.0.0.2'' 0 None, known ''10.0.0.3'' 0 None])
   \<and> length (filter (\<lambda>p. ping (world (\<lambda>t a. a \<noteq> ''10.0.0.2'')) 0 p (Some (probe_timeout False)) = None)
        (values_of [known ''10.0.0.1'' 0 None, known ''10.0.0.2'' 0 None, known ''10.0.0.3'' 0 None])) = 1
   \<and> keys (snd (snd (cleanPeers (world (\<lambda>t a. a \<noteq> ''10.0.0.2'')) 0 False
        [known ''10.0.0.1'' 0 None, known ''10.0.0.2'' 0 None, known ''10.0.0.3'' 0 None])))
      = [''10.0.0.1'', ''10.0.0.3'']
   \<and> responsive (fst (cleanPeers (world (\<lambda>t a. a \<noteq> ''10.0.0.2'')) 0 False
        [known ''10.0.0.1'' 0 None, known ''10.0.0.2'' 0 None, known ''10.0.0.3'' 0 None])) = 2"
proof -
  let ?R = "[known ''10.0.0.1'' 0 None, known ''10.0.0.2'' 0 None, known ''10.0.0.3'' 0 None]"
  let ?W = "world (\<lambda>t a. a \<noteq> ''10.0.0.2'')"
  have d: "distinct (keys ?R)"
    by (simp add: keys_def known_def)
  have failed: "length (filter (\<lambda>p. ping ?W 0 p (Some (probe_timeout False)) = None) (values_of ?R)) = 1"
    by (simp add: values_of_def known_def fresh_def world_def)
  obtain rep t' peers' where run: "cleanPeers ?W 0 False ?R = (rep, t', peers')"
    by (cases "cleanPeers ?W 0 False ?R")
  from cleanPeers_sweep [OF d run]
  have k: "keys peers' = map fst (filter (\<lambda>(k, p). ping ?W 0 p (Some (probe_timeout False)) \<noteq> None) ?R)"
    and n: "length peers' + length (filter (\<lambda>p. ping ?W 0 p (Some (probe_timeout False)) = None) (values_of ?R)) = length ?R"
    and r: "responsive rep = int (length peers')"
    by blast+
  have "keys peers' = [''10.0.0.1'', ''10.0.0.3'']"
    using k by (simp add: known_def fresh_def world_def)
  moreover have "responsive rep = 2"
    using n r failed by simp
  ultimately show ?thesis
    using d failed run by simp
qed

subsection \<open>The constructor\<close>

text \<open>The constructor throws when the configuration has no seed list at all.\<close>

lemma constructor_no_list: "peers_list c = None \<Longrightarrow> constructor e t c = Inl NoSeedPeers"
  by simp

text \<open>
  C5. Claimed: constructing the manager with an empty seed list fails with
  \<open>ConfigurationError\<close>. The code tests \<^verbatim>\<open>!config.peers.list\<close>, and an empty array is
  truthy: the constructor returns, with an empty registry.
\<close>

theorem constructor_empty_list:
  "constructor e t \<lparr>peers_list = Some [], server_port = p, network_nethash = h\<rparr> = Inr []"
  by simp

subsection \<open>Consensus metrics\<close>

text \<open>
  What holds of \<open>getNetworkHeight\<close> whatever the order of the sort: the result is
  \<^verbatim>\<open>undefined\<close> exactly when no peer reports a non-zero height, and otherwise it is a
  non-zero height that some peer reports; over the heights 10, 20, 30, 40, 50 it is 30.
\<close>

lemma length_js_sort: "length (js_sort xs) = length xs"
  by (simp add: js_sort_def)

lemma set_js_sort: "set (js_sort xs) = set xs"
  by (simp add: js_sort_def)

lemma getNetworkHeight_no_data:
  "getNetworkHeight peers = None \<longleftrightarrow> (\<forall>p\<in>set (values_of peers). \<not> truthy (height (state p)))"
proof -
  let ?hs = "map (\<lambda>p. the (height (state p))) (filter (\<lambda>p. truthy (height (state p))) (values_of peers))"
  have "getNetworkHeight peers = None \<longleftrightarrow> ?hs = []"
    by (cases "?hs = []") (simp_all add: getNetworkHeight_def at_index_def length_js_sort Let_def)
  then show ?thesis
    by (simp add: filter_empty_conv)
qed

lemma getNetworkHeight_reported:
  assumes "getNetworkHeight peers = Some h"
  shows "h \<noteq> 0 \<and> (\<exists>p\<in>set (values_of peers). height (state p) = Some h)"
proof -
  let ?known = "filter (\<lambda>p. truthy (height (state p))) (values_of peers)"
  let ?hs = "map (\<lambda>p. the (height (state p))) ?known"
  from assms have "h \<in> set (js_sort ?hs)"
    by (auto simp: getNetworkHeight_def Let_def dest: at_index_in)
  then have "h \<in> set ?hs"
    by (simp only: set_js_sort)
  then obtain p where p: "p \<in> set (values_of peers)" "truthy (height (state p))"
    "h = the (height (state p))"
    by auto
  then have "height (state p) = Some h" "h \<noteq> 0"
    by (cases "height (state p)"; simp)+
  with p(1) show ?thesis
    by blast
qed

lemma getNetworkHeight_example:
  "getNetworkHeight [reporting ''a'' 10 True, reporting ''b'' 20 True, reporting ''c'' 30 True,
                     reporting ''d'' 40 True, reporting ''e'' 50 True] = Some 30"
  by (simp add: getNetworkHeight_def values_of_def reporting_def fresh_def js_sort_def
      toString.simps digit_char_def at_index_def)

text \<open>
  C1. Claimed: \<open>networkHeight()\<close> sorts the known heights numerically ascending and
  returns the element at index \<open>floor(count/2)\<close>. The code sorts with
  \<^verbatim>\<open>Array.prototype.sort()\<close> and no comparator, that is by the decimal strings: over the
  heights 9, 10, 11 it returns 11, where the numerical order gives the median 10.
\<close>

theorem getNetworkHeight_not_numeric:
  "getNetworkHeight [reporting ''a'' 9 True, reporting ''b'' 10 True, reporting ''c'' 11 True]
     = Some 11
   \<and> networkHeight_spec [reporting ''a'' 9 True, reporting ''b'' 10 True, reporting ''c'' 11 True]
     = Some 10"
  by (simp add: getNetworkHeight_def networkHeight_spec_def values_of_def reporting_def
      fresh_def js_sort_def toString.simps digit_char_def at_index_def)

subsection \<open>Peer acceptance\<close>

lemma js_get_Missing:
  "js_get peers k = Missing \<longleftrightarrow> map_of peers k = None \<and> k \<notin> set object_prototype"
  by (simp add: js_get_def split: option.splits)

text \<open>
  A candidate whose address is the name of a property that the registry object inherits
  is taken for registered: the call returns without a word, whatever the nethash.
\<close>

lemma acceptNewPeer_inherited:
  "cand_ip cand \<in> set object_prototype \<Longrightarrow> acceptNewPeer e c t peers cand = (Inr (), t, peers)"
  by (simp add: js_get_def split: option.splits)




subsection \<open>stop\<close>

lemma without_0 [simp]: "without 0 (x # xs) = xs"
  by (simp add: without_def)

lemma at_index_0 [simp]: "at_index (x # xs) 0 = Some x"
  by (simp add: at_index_def)

text \<open>
  The sweep of the manager is the sweep of \<open>cleanPeers\<close>: when \<^verbatim>\<open>cleanPeers\<close> is called
  with nothing in flight and the probes settle in the order of the keys, each as the
  peer answers it, the registry ends as \<open>cleanPeers\<close> leaves it, nothing is in flight any
  more, and the sweep has counted the replies and the wrong peers.
\<close>

lemma sweep_settling:
  assumes "distinct (map fst (front @ todo))"
  shows "run \<lparr>this_peers = front @ todo,
               in_flight = map (\<lambda>key. Probing 0 key (probe_timeout fast)) (map fst todo),
               tallies = [(c, w)]\<rparr>
             (map (\<lambda>(k, p). Probe_settles 0 (ping e t p (Some (probe_timeout fast)))) todo)
         = \<lparr>this_peers = front @ survivors e t fast todo, in_flight = [],
            tallies = [(c + length (survivors e t fast todo),
                        w + (length todo - length (survivors e t fast todo)))]\<rparr>"
  using assms
proof (induction todo arbitrary: front c w)
  case Nil
  then show ?case by (simp add: run_def)
next
  case (Cons kp rest)
  obtain k p where kp: "kp = (k, p)"
    by (cases kp)
  have fresh_k: "k \<notin> fst ` set front" "k \<notin> fst ` set rest"
    using Cons.prems by (auto simp: kp)
  have m: "map_of (front @ (k, p) # rest) k = Some p"
    using fresh_k(1) by (rule map_of_middle)
  note le = length_survivors_le [of e t fast rest]
  let ?flying = "map (\<lambda>key. Probing 0 key (probe_timeout fast)) (map fst rest)"
  let ?m = "\<lparr>this_peers = front @ kp # rest,
             in_flight = Probing 0 k (probe_timeout fast) # ?flying, tallies = [(c, w)]\<rparr>"
  show ?case
  proof (cases "ping e t p (Some (probe_timeout fast))")
    case None
    have "AList.delete k (front @ (k, p) # rest) = front @ rest"
      using fresh_k by (rule delete_middle)
    then have step: "step ?m (Probe_settles 0 None) =
        \<lparr>this_peers = front @ rest, in_flight = ?flying, tallies = [(c, Suc w)]\<rparr>"
      by (simp add: probe_failed_def kp)
    have "distinct (map fst (front @ rest))"
      using Cons.prems by (simp add: kp)
    from Cons.IH [OF this, of c "Suc w"] step None le show ?thesis
      by (simp add: kp survivors_Cons Suc_diff_le run_def)
  next
    case (Some r)
    have "AList.update k (probed p r) (front @ (k, p) # rest) = front @ (k, probed p r) # rest"
      using fresh_k(1) by (rule update_middle)
    then have step: "step ?m (Probe_settles 0 (Some r)) =
        \<lparr>this_peers = (front @ [(k, probed p r)]) @ rest, in_flight = ?flying,
          tallies = [(Suc c, w)]\<rparr>"
      using m by (simp add: probe_answered_def kp del: map_of_append)
    have "distinct (map fst ((front @ [(k, probed p r)]) @ rest))"
      using Cons.prems by (simp add: kp)
    from Cons.IH [OF this, of "Suc c" w] step Some show ?thesis
      by (simp add: kp survivors_Cons run_def)
  qed
qed

lemma sweep_is_cleanPeers:
  assumes "distinct (keys peers)" and "cleanPeers e t fast peers = (rep, t', peers')"
  shows "this_peers (run (step (idle peers) (Sweeps fast))
           (map (\<lambda>(k, p). Probe_settles 0 (ping e t p (Some (probe_timeout fast)))) peers)) = peers'
       \<and> in_flight (run (step (idle peers) (Sweeps fast))
           (map (\<lambda>(k, p). Probe_settles 0 (ping e t p (Some (probe_timeout fast)))) peers)) = []"
proof -
  have "peers' = survivors e t fast peers"
    using cleanPeers_eq [OF assms(1), of e t fast] assms(2) by simp
  moreover have "step (idle peers) (Sweeps fast) =
      \<lparr>this_peers = [] @ peers,
        in_flight = map (\<lambda>key. Probing 0 key (probe_timeout fast)) (map fst peers),
        tallies = [(0, 0)]\<rparr>"
    by (simp add: idle_def keys_def)
  ultimately show ?thesis
    using sweep_settling [of "[]" peers fast 0 0 e t] assms(1)
    by (simp add: keys_def)
qed

lemma run_stop: "run m (filter (\<lambda>ev. ev \<noteq> Stop) evs) = run m evs"
  unfolding run_def by (induction evs arbitrary: m) (simp_all add: stop_def)

text \<open>
  C10. \<open>stop()\<close> leaves the manager as it is: the registry with every peer in it, and
  every operation in flight. What is in flight when \<open>stop\<close> is called goes on as it
  would have: a probe of a sweep that fails afterwards still evicts its peer, a new peer
  that answers afterwards is still stored, a send still settles; and a course of events
  with calls of \<open>stop\<close> in it ends as the same course without them.
\<close>

theorem stop_noop:
  "stop m = m
   \<and> this_peers (stop m) = this_peers m \<and> in_flight (stop m) = in_flight m
   \<and> (at_index (in_flight m) n = Some (Probing i key timeout) \<longrightarrow>
        this_peers (step (stop m) (Probe_settles n None)) = AList.delete key (this_peers m) \<and>
        in_flight (step (stop m) (Probe_settles n None)) = without n (in_flight m))
   \<and> (at_index (in_flight m) n = Some (Connecting p) \<longrightarrow>
        this_peers (step (stop m) (Probe_settles n (Some r))) = js_set (this_peers m) (ip p) (probed p r) \<and>
        in_flight (step (stop m) (Probe_settles n (Some r))) = without n (in_flight m))
   \<and> (at_index (in_flight m) n = Some (Posting p b) \<longrightarrow>
        in_flight (step (stop m) (Send_settles n a)) = without n (in_flight m))
   \<and> run m evs = run m (filter (\<lambda>ev. ev \<noteq> Stop) evs)"
  by (simp add: stop_def probe_failed_def run_stop)

theorem stop_noop_witness:
  "in_flight (step (idle [known ''10.0.0.1'' 0 None, known ''10.0.0.2'' 0 None]) (Sweeps False))
     = [Probing 0 ''10.0.0.1'' 5000, Probing 0 ''10.0.0.2'' 5000]
   \<and> in_flight (stop (step (idle [known ''10.0.0.1'' 0 None, known ''10.0.0.2'' 0 None]) (Sweeps False)))
     = [Probing 0 ''10.0.0.1'' 5000, Probing 0 ''10.0.0.2'' 5000]
   \<and> this_peers (step (stop (step (idle [known ''10.0.0.1'' 0 None, known ''10.0.0.2'' 0 None])
        (Sweeps False))) (Probe_settles 1 None))
     = [known ''10.0.0.1'' 0 None]
   \<and> in_flight (step (stop (step (idle [known ''10.0.0.1'' 0 None, known ''10.0.0.2'' 0 None])
        (Sweeps False))) (Probe_settles 1 None))
     = [Probing 0 ''10.0.0.1'' 5000]
   \<and> this_peers (step (stop (step (idle []) (Connects (snd (known ''10.0.0.3'' 0 None)))))
        (Probe_settles 0 (Some answer)))
     = [(''10.0.0.3'', probed (snd (known ''10.0.0.3'' 0 None)) answer)]
   \<and> in_flight (step (stop (step (idle [known ''10.0.0.1'' 0 None]) (Broadcasts (Block 7))))
        (Send_settles 0 (Inr ())))
     = []"
proof -
  let ?R = "[known ''10.0.0.1'' 0 None, known ''10.0.0.2'' 0 None]"
  let ?m = "step (idle ?R) (Sweeps False)"
  let ?c = "step (idle []) (Connects (snd (known ''10.0.0.3'' 0 None)))"
  let ?b = "step (idle [known ''10.0.0.1'' 0 None]) (Broadcasts (Block 7))"
  have flying: "in_flight ?m = [Probing 0 ''10.0.0.1'' 5000, Probing 0 ''10.0.0.2'' 5000]"
    by (simp add: idle_def keys_def known_def probe_timeout_def)
  have reg: "this_peers ?m = ?R"
    by (simp add: idle_def)
  have second: "at_index (in_flight ?m) 1 = Some (Probing 0 ''10.0.0.2'' 5000)"
    using flying by (simp add: at_index_def)
  have sweep: "this_peers (step (stop ?m) (Probe_settles 1 None)) = AList.delete ''10.0.0.2'' (this_peers ?m)"
    "in_flight (step (stop ?m) (Probe_settles 1 None)) = without 1 (in_flight ?m)"
    using stop_noop [where m = ?m and n = 1 and i = 0 and key = "''10.0.0.2''"
          and timeout = 5000] second by blast+
  have d: "AList.delete ''10.0.0.2'' ?R = [known ''10.0.0.1'' 0 None]"
    by (simp add: known_def)
  have evicted: "this_peers (step (stop ?m) (Probe_settles 1 None)) = [known ''10.0.0.1'' 0 None]"
    using sweep(1) by (simp only: reg d)
  have w: "without 1 [Probing 0 ''10.0.0.1'' 5000, Probing 0 ''10.0.0.2'' 5000]
      = [Probing 0 ''10.0.0.1'' 5000]"
    by (simp add: without_def)
  have left: "in_flight (step (stop ?m) (Probe_settles 1 None)) = [Probing 0 ''10.0.0.1'' 5000]"
    using sweep(2) by (simp only: flying w)
  have "in_flight (stop ?m) = in_flight ?m"
    using stop_noop [of ?m] by blast
  then have same: "in_flight (stop ?m) = [Probing 0 ''10.0.0.1'' 5000, Probing 0 ''10.0.0.2'' 5000]"
    by (simp only: flying)
  have c0: "at_index (in_flight ?c) 0 = Some (Connecting (snd (known ''10.0.0.3'' 0 None)))"
    by (simp add: idle_def)
  have c1: "js_set (this_peers ?c) (ip (snd (known ''10.0.0.3'' 0 None)))
          (probed (snd (known ''10.0.0.3'' 0 None)) answer)
      = [(''10.0.0.3'', probed (snd (known ''10.0.0.3'' 0 None)) answer)]"
    by (simp add: idle_def js_set_def known_def)
  have "this_peers (step (stop ?c) (Probe_settles 0 (Some answer)))
      = js_set (this_peers ?c) (ip (snd (known ''10.0.0.3'' 0 None)))
          (probed (snd (known ''10.0.0.3'' 0 None)) answer)"
    using stop_noop [where m = ?c and n = 0 and p = "snd (known ''10.0.0.3'' 0 None)"
          and r = answer] c0 by blast
  then have stored: "this_peers (step (stop ?c) (Probe_settles 0 (Some answer)))
      = [(''10.0.0.3'', probed (snd (known ''10.0.0.3'' 0 None)) answer)]"
    by (simp only: c1)
  have b0: "at_index (in_flight ?b) 0 = Some (Posting (snd (known ''10.0.0.1'' 0 None)) (Block 7))"
    by (simp add: idle_def values_of_def)
  have b1: "without 0 (in_flight ?b) = []"
    by (simp add: idle_def values_of_def)
  have "in_flight (step (stop ?b) (Send_settles 0 (Inr ()))) = without 0 (in_flight ?b)"
    using stop_noop [where m = ?b and n = 0 and p = "snd (known ''10.0.0.1'' 0 None)"
          and b = "Block 7" and a = "Inr ()"] b0
    by blast
  then have sent: "in_flight (step (stop ?b) (Send_settles 0 (Inr ()))) = []"
    by (simp only: b1)
  from flying same evicted left stored sent show ?thesis
    by blast
qed

subsection \<open>The forging status\<close>

lemma js_ge_iff: "js_ge a b \<longleftrightarrow> (\<exists>h m. a = Some h \<and> b = Some m \<and> m \<le> h)"
  by (cases a; cases b) auto

lemma okForging_le: "length (okForging peers slot) \<le> length (syncedPeers peers slot)"
  by (simp add: okForging_def)

text \<open>
  C6, as the code has it. Claimed: when no peer shares the current slot, \<open>forgingStatus()\<close>
  returns an explicit "no data" result, not NaN. The code divides the two counts, and 0/0
  is NaN; so it is for the empty registry.
\<close>

theorem getPBFTForgingStatus_NaN:
  "getPBFTForgingStatus (world (\<lambda>t a. True)) 0 [] = NaN"
  by (simp add: getPBFTForgingStatus_def okForging_def syncedPeers_def values_of_def js_div_def)

text \<open>
  The height that the method compares with is the result of \<open>getNetworkHeight\<close>, the
  median in the order of the decimal strings (C1). Where that is not the numerical
  median, the status follows it: of four forging peers in the current slot at the
  heights 9, 10, 10 and 11, three are at or above the median 10, and the status is 1/4.
\<close>

lemma getPBFTForgingStatus_string_order:
  "getPBFTForgingStatus (world (\<lambda>t a. True)) 0
     [reporting ''a'' 9 True, reporting ''b'' 10 True, reporting ''c'' 10 True,
      reporting ''d'' 11 True] = Num (1 / 4)
   \<and> networkHeight_spec
     [reporting ''a'' 9 True, reporting ''b'' 10 True, reporting ''c'' 10 True,
      reporting ''d'' 11 True] = Some 10"
  by (simp add: getPBFTForgingStatus_def okForging_def syncedPeers_def js_div_def
      getNetworkHeight_def networkHeight_spec_def values_of_def reporting_def fresh_def
      js_sort_def toString.simps digit_char_def at_index_def world_def)

text \<open>
  C6, amended. Let \<open>n\<close> be the number of peers whose reported slot is the local slot;
  \<open>j\<close> the number of those that are allowed to forge and whose height is known and at
  least the height that \<open>getNetworkHeight\<close> returns, the median in the order of the
  decimal strings; and \<open>k\<close> the same number counted against the network height, the
  numerical median \<open>networkHeight_spec\<close>. The forging status is NaN when \<open>n = 0\<close>. When
  \<open>n > 0\<close> it is the ratio \<open>j / n\<close>; it is the ratio \<open>k / n\<close> on the registries on which
  \<open>getNetworkHeight\<close> gives the network height. NaN is not the ratio 0.
\<close>

theorem getPBFTForgingStatus_amended:
  assumes "n = length (filter (\<lambda>p. currentSlot (state p) = Some (getSlotNumber e t)) (values_of peers))"
    and "k = length (filter (\<lambda>p. currentSlot (state p) = Some (getSlotNumber e t) \<and>
                 forgingAllowed (state p) \<and>
                 (\<exists>h m. height (state p) = Some h \<and> networkHeight_spec peers = Some m \<and> m \<le> h))
               (values_of peers))"
    and "j = length (filter (\<lambda>p. currentSlot (state p) = Some (getSlotNumber e t) \<and>
                 forgingAllowed (state p) \<and>
                 (\<exists>h m. height (state p) = Some h \<and> getNetworkHeight peers = Some m \<and> m \<le> h))
               (values_of peers))"
  shows "(n = 0 \<longrightarrow> getPBFTForgingStatus e t peers = NaN)
       \<and> (0 < n \<longrightarrow> getPBFTForgingStatus e t peers = Num (real j / real n) \<and> j \<le> n)
       \<and> (0 < n \<and> getNetworkHeight peers = networkHeight_spec peers \<longrightarrow>
            getPBFTForgingStatus e t peers = Num (real k / real n) \<and> k \<le> n)
       \<and> NaN \<noteq> Num 0"
proof -
  have n: "n = length (syncedPeers peers (getSlotNumber e t))"
    by (simp add: assms(1) syncedPeers_def)
  have j: "j = length (okForging peers (getSlotNumber e t))"
    by (simp add: assms(3) okForging_def syncedPeers_def js_ge_iff conj_commute
        conj_left_commute cong: conj_cong)
  have le: "j \<le> n"
    unfolding n j by (rule okForging_le)
  have none: "getPBFTForgingStatus e t peers = NaN" if "n = 0"
    using that n okForging_le [of peers "getSlotNumber e t"]
    by (simp add: getPBFTForgingStatus_def js_div_def)
  have ratio: "getPBFTForgingStatus e t peers = Num (real j / real n)" if "0 < n"
    using that n j by (simp add: getPBFTForgingStatus_def js_div_def)
  have same: "k = j" if "getNetworkHeight peers = networkHeight_spec peers"
    using that by (simp add: assms(2,3))
  show ?thesis
    using none ratio le same by simp
qed

theorem getPBFTForgingStatus_amended_witness:
  "getNetworkHeight
     [reporting ''a'' 10 True, reporting ''b'' 20 True, reporting ''c'' 20 True,
      reporting ''d'' 30 True] = Some 20
   \<and> networkHeight_spec
     [reporting ''a'' 10 True, reporting ''b'' 20 True, reporting ''c'' 20 True,
      reporting ''d'' 30 True] = Some 20
   \<and> getPBFTForgingStatus (world (\<lambda>t a. True)) 0
     [reporting ''a'' 10 True, reporting ''b'' 20 True, reporting ''c'' 20 True,
      reporting ''d'' 30 True] = Num (3 / 4)
   \<and> getNetworkHeight
     [reporting ''a'' 9 True, reporting ''b'' 10 True, reporting ''c'' 10 True,
      reporting ''d'' 11 True] = Some 11
   \<and> getPBFTForgingStatus (world (\<lambda>t a. True)) 0
     [reporting ''a'' 9 True, reporting ''b'' 10 True, reporting ''c'' 10 True,
      reporting ''d'' 11 True] = Num (1 / 4)
   \<and> getPBFTForgingStatus (world (\<lambda>t a. True)) 0 [known ''a'' 0 None] = NaN"
proof -
  let ?S = "[reporting ''a'' 9 True, reporting ''b'' 10 True, reporting ''c'' 10 True,
      reporting ''d'' 11 True]"
  let ?R = "[reporting ''a'' 10 True, reporting ''b'' 20 True, reporting ''c'' 20 True,
      reporting ''d'' 30 True]"
  let ?W = "world (\<lambda>t a. True)"
  have h: "getNetworkHeight ?R = Some 20"
    by (simp add: getNetworkHeight_def values_of_def reporting_def fresh_def js_sort_def
        toString.simps digit_char_def at_index_def)
  have hs: "networkHeight_spec ?R = Some 20"
    by (simp add: networkHeight_spec_def values_of_def reporting_def fresh_def at_index_def)
  have n: "(4::nat) = length (filter (\<lambda>p. currentSlot (state p) = Some (getSlotNumber ?W 0)) (values_of ?R))"
    by (simp add: values_of_def reporting_def fresh_def world_def)
  have k: "(3::nat) = length (filter (\<lambda>p. currentSlot (state p) = Some (getSlotNumber ?W 0) \<and>
                 forgingAllowed (state p) \<and>
                 (\<exists>h m. height (state p) = Some h \<and> networkHeight_spec ?R = Some m \<and> m \<le> h))
               (values_of ?R))"
    unfolding hs by (simp add: values_of_def reporting_def fresh_def world_def)
  have j: "(3::nat) = length (filter (\<lambda>p. currentSlot (state p) = Some (getSlotNumber ?W 0) \<and>
                 forgingAllowed (state p) \<and>
                 (\<exists>h m. height (state p) = Some h \<and> getNetworkHeight ?R = Some m \<and> m \<le> h))
               (values_of ?R))"
    unfolding h by (simp add: values_of_def reporting_def fresh_def world_def)
  have same: "getNetworkHeight ?R = networkHeight_spec ?R"
    using h hs by simp
  have one: "getPBFTForgingStatus ?W 0 ?R = Num (3 / 4)"
    using getPBFTForgingStatus_amended [OF n k j] same by simp
  have g: "getNetworkHeight ?S = Some 11"
    by (simp add: getNetworkHeight_def values_of_def reporting_def fresh_def js_sort_def
        toString.simps digit_char_def at_index_def)
  have gs: "networkHeight_spec ?S = Some 10"
    by (simp add: networkHeight_spec_def values_of_def reporting_def fresh_def at_index_def)
  have sn: "(4::nat) = length (filter (\<lambda>p. currentSlot (state p) = Some (getSlotNumber ?W 0)) (values_of ?S))"
    by (simp add: values_of_def reporting_def fresh_def world_def)
  have sk: "(3::nat) = length (filter (\<lambda>p. currentSlot (state p) = Some (getSlotNumber ?W 0) \<and>
                 forgingAllowed (state p) \<and>
                 (\<exists>h m. height (state p) = Some h \<and> networkHeight_spec ?S = Some m \<and> m \<le> h))
               (values_of ?S))"
    unfolding gs by (simp add: values_of_def reporting_def fresh_def world_def)
  have sj: "(1::nat) = length (filter (\<lambda>p. currentSlot (state p) = Some (getSlotNumber ?W 0) \<and>
                 forgingAllowed (state p) \<and>
                 (\<exists>h m. height (state p) = Some h \<and> getNetworkHeight ?S = Some m \<and> m \<le> h))
               (values_of ?S))"
    unfolding g by (simp add: values_of_def reporting_def fresh_def world_def)
  have quarter: "getPBFTForgingStatus ?W 0 ?S = Num (1 / 4)"
    using getPBFTForgingStatus_amended [OF sn sk sj] by simp
  have n0: "(0::nat) = length (filter (\<lambda>p. currentSlot (state p) = Some (getSlotNumber ?W 0))
               (values_of [known ''a'' 0 None]))"
    by (simp add: values_of_def known_def fresh_def world_def)
  have two: "getPBFTForgingStatus ?W 0 [known ''a'' 0 None] = NaN"
    using getPBFTForgingStatus_amended [OF n0 refl refl] by simp
  from h hs one g quarter two show ?thesis
    by simp
qed

subsection \<open>Broadcast\<close>

lemma promise_all_Inr:
  "(\<forall>r\<in>set rs. r = Inr ()) \<Longrightarrow> promise_all rs = Inr (replicate (length rs) ())"
  by (induction rs) auto

lemma promise_all_Inl:
  "\<exists>r\<in>set rs. r \<noteq> Inr () \<Longrightarrow> \<exists>err. Inl err \<in> set rs \<and> promise_all rs = Inl err"
proof (induction rs)
  case Nil
  then show ?case by simp
next
  case (Cons r rs)
  show ?case
  proof (cases r)
    case (Inl err)
    then show ?thesis by auto
  next
    case (Inr u)
    then have "\<exists>r\<in>set rs. r \<noteq> Inr ()"
      using Cons.prems by auto
    from Cons.IH [OF this] Inr show ?thesis
      by auto
  qed
qed

text \<open>
  C3, as the code has it. Claimed: the failure of one peer's \<open>postBlock\<close> neither aborts
  the broadcast nor raises an error to the caller. The method returns \<^verbatim>\<open>Promise.all\<close> of
  the sends: with two peers of which the second does not take the block, the broadcast
  is rejected with that peer's error.
\<close>

theorem broadcastBlock_rejects:
  "broadcastBlock (world (\<lambda>t a. a = ''10.0.0.1'')) 0
     [known ''10.0.0.1'' 0 None, known ''10.0.0.2'' 0 None] (Block 12)
   = Inl (PeerFailure ''10.0.0.2'')"
  by (simp add: broadcastBlock_def values_of_def known_def fresh_def world_def)

text \<open>
  C3, amended. The broadcast sends the block to every registered peer. When every send is
  acknowledged, it fulfils, with one acknowledgement for each peer; when a send fails, it
  is rejected with the error of a peer whose send failed. It gives no count of failures.
\<close>

theorem broadcastBlock_amended:
  "((\<forall>p\<in>set (values_of peers). postBlock e t p b = Inr ()) \<longrightarrow>
      broadcastBlock e t peers b = Inr (replicate (length peers) ()))
   \<and> ((\<exists>p\<in>set (values_of peers). postBlock e t p b \<noteq> Inr ()) \<longrightarrow>
      (\<exists>p\<in>set (values_of peers). \<exists>err. postBlock e t p b = Inl err \<and>
         broadcastBlock e t peers b = Inl err))"
proof (intro conjI impI)
  assume "\<forall>p\<in>set (values_of peers). postBlock e t p b = Inr ()"
  then have "\<forall>r\<in>set (map (\<lambda>p. postBlock e t p b) (values_of peers)). r = Inr ()"
    by simp
  from promise_all_Inr [OF this] show "broadcastBlock e t peers b = Inr (replicate (length peers) ())"
    by (simp add: broadcastBlock_def values_of_def)
next
  assume "\<exists>p\<in>set (values_of peers). postBlock e t p b \<noteq> Inr ()"
  then have "\<exists>r\<in>set (map (\<lambda>p. postBlock e t p b) (values_of peers)). r \<noteq> Inr ()"
    by simp
  from promise_all_Inl [OF this]
  show "\<exists>p\<in>set (values_of peers). \<exists>err. postBlock e t p b = Inl err \<and> broadcastBlock e t peers b = Inl err"
    by (auto simp: broadcastBlock_def)
qed

theorem broadcastBlock_amended_witness:
  "broadcastBlock (world (\<lambda>t a. True)) 0 [known ''10.0.0.1'' 0 None, known ''10.0.0.2'' 0 None] (Block 12)
     = Inr [(), ()]
   \<and> (\<exists>p\<in>set (values_of [known ''10.0.0.1'' 0 None, known ''10.0.0.2'' 0 None]). \<exists>err.
         postBlock (world (\<lambda>t a. a = ''10.0.0.1'')) 0 p (Block 12) = Inl err \<and>
         broadcastBlock (world (\<lambda>t a. a = ''10.0.0.1'')) 0
           [known ''10.0.0.1'' 0 None, known ''10.0.0.2'' 0 None] (Block 12) = Inl err)"
proof -
  let ?R = "[known ''10.0.0.1'' 0 None, known ''10.0.0.2'' 0 None]"
  have "\<forall>p\<in>set (values_of ?R). postBlock (world (\<lambda>t a. True)) 0 p (Block 12) = Inr ()"
    by (simp add: values_of_def known_def world_def)
  then have one: "broadcastBlock (world (\<lambda>t a. True)) 0 ?R (Block 12) = Inr [(), ()]"
    using broadcastBlock_amended [of ?R "world (\<lambda>t a. True)" 0 "Block 12"]
    by (simp add: numeral_2_eq_2)
  have "\<exists>p\<in>set (values_of ?R). postBlock (world (\<lambda>t a. a = ''10.0.0.1'')) 0 p (Block 12) \<noteq> Inr ()"
    by (simp add: values_of_def known_def fresh_def world_def)
  then have two: "\<exists>p\<in>set (values_of ?R). \<exists>err.
         postBlock (world (\<lambda>t a. a = ''10.0.0.1'')) 0 p (Block 12) = Inl err \<and>
         broadcastBlock (world (\<lambda>t a. a = ''10.0.0.1'')) 0 ?R (Block 12) = Inl err"
    using broadcastBlock_amended [of ?R "world (\<lambda>t a. a = ''10.0.0.1'')" 0 "Block 12"]
    by blast
  from one two show ?thesis
    by blast
qed

subsection \<open>Block download\<close>


lemma getRandomDownloadBlocksPeer_registry:
  "getRandomDownloadBlocksPeer stack e t peers = (res, t1, peers1) \<Longrightarrow> peers1 = peers"
proof (cases stack)
  case 0
  assume "getRandomDownloadBlocksPeer stack e t peers = (res, t1, peers1)"
  with 0 show ?thesis
    by (simp add: getRandomDownloadBlocksPeer.simps)
next
  case (Suc n)
  assume a: "getRandomDownloadBlocksPeer stack e t peers = (res, t1, peers1)"
  let ?random = "random_key e t (filter (notFull peers) (filter (notBanned e t peers) (keys peers)))"
  show ?thesis
  proof (cases "map_of peers ?random")
    case None
    then have "getRandomPeer n e (Suc t) peers None = (res, t1, peers1)"
      using a Suc by (simp add: getRandomDownloadBlocksPeer.simps Let_def absent_delete)
    then show ?thesis
      by (rule getRandomPeer_registry)
  next
    case (Some q)
    then show ?thesis
      using a Suc by (auto simp: getRandomDownloadBlocksPeer.simps Let_def)
  qed
qed









subsection \<open>The node's own address\<close>

text \<open>
  An entry that the constructor stores under 127.0.0.1 is not at the node's own port.
\<close>

lemma stored_seed:
  "map_of (foldl (store_seed e t) peers ss) k = Some p \<Longrightarrow>
     map_of peers k = Some p \<or> (\<exists>s\<in>set ss. seed_ip s = k \<and> p = new_Peer e t k (seed_port s))"
proof (induction ss arbitrary: peers)
  case Nil
  then show ?case by simp
next
  case (Cons s ss)
  from Cons.IH [of "store_seed e t peers s"] Cons.prems
  have "map_of (store_seed e t peers s) k = Some p \<or>
        (\<exists>s\<in>set ss. seed_ip s = k \<and> p = new_Peer e t k (seed_port s))"
    by simp
  then show ?case
    by (auto simp: store_seed_def js_set_def update_conv' split: if_splits)
qed

lemma constructor_excludes_self:
  assumes "constructor e t c = Inr peers" and "map_of peers ''127.0.0.1'' = Some p"
  shows "port p \<noteq> server_port c"
proof -
  from assms(1) obtain l where l: "peers_list c = Some l"
    and peers: "peers = foldl (store_seed e t) []
      (filter (\<lambda>s. seed_ip s \<noteq> ''127.0.0.1'' \<or> seed_port s \<noteq> server_port c) l)"
    by (auto split: option.splits)
  let ?kept = "filter (\<lambda>s. seed_ip s \<noteq> ''127.0.0.1'' \<or> seed_port s \<noteq> server_port c) l"
  have "map_of (foldl (store_seed e t) [] ?kept) ''127.0.0.1'' = Some p"
    using assms(2) peers by simp
  from stored_seed [OF this]
  obtain s where "s \<in> set ?kept" "seed_ip s = ''127.0.0.1''"
    "p = new_Peer e t ''127.0.0.1'' (seed_port s)"
    by auto
  then have "seed_port s \<noteq> server_port c" "p = new_Peer e t ''127.0.0.1'' (seed_port s)"
    by auto
  then show ?thesis
    by (simp add: new_Peer_def)
qed

text \<open>
  C4. Claimed: the registry never contains an entry with the node's own address and port,
  whatever the seed list and the operations. The constructor keeps the claim (the lemma
  above); the re-seeding of \<open>updateNetworkStatus\<close> stores every seed, with no such test.
  With the seeds 127.0.0.1:4000, 10.0.0.1:4000 and 10.0.0.2:4000, the node listening on port
  4000 and 10.0.0.2 not answering: the constructor registers the two other nodes; the
  first sweep evicts 10.0.0.2, one entry is fewer than \<open>3 - 1\<close>, the seeds are stored again,
  and the method ends with 127.0.0.1:4000 in the registry. (The stack needs room for two
  nested calls only: no selection has to call itself.)
\<close>

theorem updateNetworkStatus_reseeds_self:
  "constructor (world (\<lambda>t a. a \<noteq> ''10.0.0.2'')) 0
      \<lparr>peers_list = Some [node ''127.0.0.1'', node ''10.0.0.1'', node ''10.0.0.2''],
       server_port = 4000, network_nethash = ''main''\<rparr>
    = Inr [seeded ''10.0.0.1'', seeded ''10.0.0.2'']
   \<and> updateNetworkStatus (Suc (Suc (Suc (Suc 0)))) (Suc (Suc stack))
      (world (\<lambda>t a. a \<noteq> ''10.0.0.2''))
      [node ''127.0.0.1'', node ''10.0.0.1'', node ''10.0.0.2''] 0
      [seeded ''10.0.0.1'', seeded ''10.0.0.2'']
    = Some (6, [answered ''10.0.0.1'', answered ''127.0.0.1''])
   \<and> ip (snd (answered ''127.0.0.1'')) = ''127.0.0.1''
   \<and> port (snd (answered ''127.0.0.1'')) = 4000"
proof (intro conjI)
  show "constructor (world (\<lambda>t a. a \<noteq> ''10.0.0.2'')) 0
      \<lparr>peers_list = Some [node ''127.0.0.1'', node ''10.0.0.1'', node ''10.0.0.2''],
       server_port = 4000, network_nethash = ''main''\<rparr>
    = Inr [seeded ''10.0.0.1'', seeded ''10.0.0.2'']"
    by (simp add: node_def seeded_def store_seed_def js_set_def new_Peer_def world_def)
  show "updateNetworkStatus (Suc (Suc (Suc (Suc 0)))) (Suc (Suc stack))
      (world (\<lambda>t a. a \<noteq> ''10.0.0.2''))
      [node ''127.0.0.1'', node ''10.0.0.1'', node ''10.0.0.2''] 0
      [seeded ''10.0.0.1'', seeded ''10.0.0.2'']
    = Some (6, [answered ''10.0.0.1'', answered ''127.0.0.1''])"
    by (simp add: cleanPeers_def cleanPeer_def seeded_def answered_def fresh_def world_def
        keys_def notBanned_def random_key_def property_key_def at_index_def random_index_def
        Let_def reseed_def store_seed_def js_set_def new_Peer_def node_def probed_def answer_def
        eval_nat_numeral)
  show "ip (snd (answered ''127.0.0.1'')) = ''127.0.0.1''"
    by (simp add: answered_def probed_def fresh_def)
  show "port (snd (answered ''127.0.0.1'')) = 4000"
    by (simp add: answered_def probed_def fresh_def)
qed

end
